theory Spec2Isabelle
  imports
    Main
    "HOL-Library.Char_ord"
    "HOL-Library.List_Lexorder"
    "HOL-Library.Sublist"
    "HOL-Library.Multiset"
begin

section \<open>JavaScript strings\<close>

text \<open>
  A JavaScript string is modelled as a \<^typ>\<open>string\<close>, one \<^typ>\<open>char\<close> per code unit
  (code units below 256). With the orders of \<^verbatim>\<open>Char_ord\<close> and
  \<^verbatim>\<open>List_Lexorder\<close> the order on \<^typ>\<open>string\<close> is the lexicographic
  order on code units, which is the order of the default comparator of \<^verbatim>\<open>toSorted()\<close>.
\<close>

definition tab :: char where
  "tab = CHR 0x09"

definition newline :: char where
  "newline = CHR 0x0A"

definition dquote :: char where
  "dquote = CHR 0x22"

text \<open>The white space and line terminators that \<^verbatim>\<open>String.prototype.trim\<close> strips.\<close>

definition isWhiteSpace :: "char \<Rightarrow> bool" where
  "isWhiteSpace c =
     (c = CHR 0x09 \<or> c = CHR 0x0A \<or> c = CHR 0x0B \<or> c = CHR 0x0C \<or> c = CHR 0x0D
      \<or> c = CHR 0x20 \<or> c = CHR 0xA0)"

definition trim :: "string \<Rightarrow> string" where
  "trim s = rev (dropWhile isWhiteSpace (rev (dropWhile isWhiteSpace s)))"

definition startsWith :: "string \<Rightarrow> string \<Rightarrow> bool" where
  "startsWith s p = (take (length p) s = p)"

definition endsWith :: "string \<Rightarrow> string \<Rightarrow> bool" where
  "endsWith s p = (length p \<le> length s \<and> drop (length s - length p) s = p)"

text \<open>
  \<^verbatim>\<open>s.split(sep)\<close> for a separator of one code unit: the fields between the
  separators, so the empty string gives one empty field.
\<close>

fun split_js :: "char \<Rightarrow> string \<Rightarrow> string list" where
  "split_js sep [] = [[]]"
| "split_js sep (c # cs) =
     (if c = sep then [] # split_js sep cs
      else (case split_js sep cs of
              [] \<Rightarrow> [[c]]
            | p # ps \<Rightarrow> (c # p) # ps))"

text \<open>\<^verbatim>\<open>xs.join(sep)\<close>.\<close>

fun join :: "string \<Rightarrow> string list \<Rightarrow> string" where
  "join sep [] = []"
| "join sep [x] = x"
| "join sep (x # y # ys) = x @ sep @ join sep (y # ys)"

text \<open>The decimal rendering of a natural number, as a template literal prints it.\<close>

definition digits :: string where
  "digits = ''0123456789''"

fun showNat :: "nat \<Rightarrow> string" where
  "showNat n =
     (if n < 10 then [digits ! n]
      else showNat (n div 10) @ [digits ! (n mod 10)])"

declare showNat.simps [simp del]

section \<open>Data model\<close>

definition SCOREBOARD_PATH :: string where
  "SCOREBOARD_PATH = ''.GITHUB-MODE/runtime/implementation-scoreboard.json''"

definition SPEC_ARTIFACT_PREFIX :: string where
  "SPEC_ARTIFACT_PREFIX = ''.GITHUB-MODE/docs/planning/''"

text \<open>
  The scoreboard is read from JSON, so the \<^verbatim>\<open>state\<close> of a capability is whatever string
  the file holds; \<^verbatim>\<open>validateScoreboard\<close> is what checks it against the three values of
  \<^verbatim>\<open>ScoreState\<close>. The field \<^verbatim>\<open>id\<close> is named \<open>id_cap\<close> here.
\<close>

record Capability =
  id_cap :: string
  description :: string
  state :: string
  evidence :: "string list option"

record Scoreboard =
  version :: int
  capabilities :: "Capability list"

record DiffEntry =
  status :: string
  path :: string

text \<open>A thrown \<^verbatim>\<open>Error\<close> is a value carrying its message.\<close>

datatype error = Error (message: string)

section \<open>Parsing the diff listing\<close>

text \<open>
  The body of the loop of \<^verbatim>\<open>parseDiffEntries\<close>, for one line: it returns the array
  \<^verbatim>\<open>entries\<close> after the pushes of this iteration. \<^verbatim>\<open>parts[2]\<close> is
  \<^verbatim>\<open>undefined\<close> beyond the end of the array and falsy there, as an empty field is.
\<close>

definition parseLine :: "string \<Rightarrow> DiffEntry list \<Rightarrow> DiffEntry list" where
  "parseLine line entries =
     (let parts = split_js tab line in
      if length parts < 2 then entries
      else
        let st = trim (parts ! 0) in
        if startsWith st ''R'' \<or> startsWith st ''C'' then
          (let entries1 = entries @ [\<lparr>status = st, path = trim (parts ! 1)\<rparr>] in
           if 2 < length parts \<and> parts ! 2 \<noteq> []
           then entries1 @ [\<lparr>status = st, path = trim (parts ! 2)\<rparr>]
           else entries1)
        else entries @ [\<lparr>status = st, path = trim (parts ! 1)\<rparr>])"

fun parseLines :: "string list \<Rightarrow> DiffEntry list \<Rightarrow> DiffEntry list" where
  "parseLines [] entries = entries"
| "parseLines (line # rest) entries = parseLines rest (parseLine line entries)"

definition parseDiffEntries :: "string \<Rightarrow> DiffEntry list" where
  "parseDiffEntries diffOutput = parseLines (split_js newline diffOutput) []"

section \<open>Spec artifacts and the scoreboard update\<close>

definition isSpecArtifact :: "string \<Rightarrow> bool" where
  "isSpecArtifact p =
     (startsWith p SPEC_ARTIFACT_PREFIX \<and> endsWith p ''.md'' \<and> \<not> endsWith p ''/README.md'')"

text \<open>
  A \<^verbatim>\<open>Set\<close> of strings keeps its elements in insertion order; it is the list of its
  elements, and adding an element that is there already changes nothing.
\<close>

definition set_add :: "string list \<Rightarrow> string \<Rightarrow> string list" where
  "set_add s x = (if x \<in> set s then s else s @ [x])"

fun collectAdditions :: "DiffEntry list \<Rightarrow> string list \<Rightarrow> string list" where
  "collectAdditions [] additions = additions"
| "collectAdditions (entry # rest) additions =
     collectAdditions rest
       (if status entry = ''A'' \<and> isSpecArtifact (path entry)
        then set_add additions (path entry) else additions)"

definition getAddedSpecArtifacts :: "DiffEntry list \<Rightarrow> string list" where
  "getAddedSpecArtifacts entries = sort (collectAdditions entries [])"

definition hasScoreboardUpdate :: "DiffEntry list \<Rightarrow> bool" where
  "hasScoreboardUpdate entries =
     list_ex (\<lambda>entry. path entry = SCOREBOARD_PATH \<and> status entry \<noteq> ''D'') entries"

section \<open>Validating and summarising the scoreboard\<close>

definition allowedStates :: "string list" where
  "allowedStates = [''spec-only'', ''scaffold'', ''operational'']"

definition noCapabilitiesMessage :: string where
  "noCapabilitiesMessage = ''implementation-scoreboard.json must contain at least one capability.''"

definition missingFieldMessage :: string where
  "missingFieldMessage = ''Each capability requires non-empty id and description fields.''"

definition duplicateIdMessage :: "string \<Rightarrow> string" where
  "duplicateIdMessage i = ''Duplicate capability id found: '' @ i"

definition invalidStateMessage :: "string \<Rightarrow> string \<Rightarrow> string" where
  "invalidStateMessage i s =
     ''Capability '' @ i @ '' has invalid state '' @ [dquote] @ s @ [dquote] @ ''. ''
     @ ''Expected one of: '' @ join '', '' allowedStates @ ''.''"

text \<open>
  The loop of \<^verbatim>\<open>validateScoreboard\<close> over the capabilities, with the set \<^verbatim>\<open>ids\<close>
  of the ids seen so far. An empty string is the falsy value of the fields \<^verbatim>\<open>id\<close> and
  \<^verbatim>\<open>description\<close>. The field \<^verbatim>\<open>capabilities\<close> is an array by its type, so of the
  first test what is left is the test of its length.
\<close>

fun validateCapabilities :: "Capability list \<Rightarrow> string set \<Rightarrow> error + unit" where
  "validateCapabilities [] ids = Inr ()"
| "validateCapabilities (capability # rest) ids =
     (if id_cap capability = [] \<or> description capability = []
      then Inl (Error missingFieldMessage)
      else if id_cap capability \<in> ids
      then Inl (Error (duplicateIdMessage (id_cap capability)))
      else
        let ids1 = insert (id_cap capability) ids in
        if state capability \<notin> set allowedStates
        then Inl (Error (invalidStateMessage (id_cap capability) (state capability)))
        else validateCapabilities rest ids1)"

definition validateScoreboard :: "Scoreboard \<Rightarrow> error + unit" where
  "validateScoreboard scoreboard =
     (if length (capabilities scoreboard) = 0
      then Inl (Error noCapabilitiesMessage)
      else validateCapabilities (capabilities scoreboard) {})"

text \<open>
  The values of the object \<^verbatim>\<open>counts\<close>: a number, or \<^verbatim>\<open>NaN\<close>, which is what
  \<^verbatim>\<open>counts[k] += 1\<close> stores under a key that holds no number.
\<close>

datatype jsnum = Num nat | NaN

definition increment :: "jsnum option \<Rightarrow> jsnum" where
  "increment v = (case v of Some (Num n) \<Rightarrow> Num (n + 1) | Some NaN \<Rightarrow> NaN | None \<Rightarrow> NaN)"

fun countStates :: "Capability list \<Rightarrow> (string \<rightharpoonup> jsnum) \<Rightarrow> (string \<rightharpoonup> jsnum)" where
  "countStates [] counts = counts"
| "countStates (capability # rest) counts =
     countStates rest (counts(state capability \<mapsto> increment (counts (state capability))))"

definition getScoreCounts :: "Scoreboard \<Rightarrow> (string \<rightharpoonup> jsnum)" where
  "getScoreCounts scoreboard =
     countStates (capabilities scoreboard)
       [''spec-only'' \<mapsto> Num 0, ''scaffold'' \<mapsto> Num 0, ''operational'' \<mapsto> Num 0]"

definition showCount :: "jsnum option \<Rightarrow> string" where
  "showCount v =
     (case v of Some (Num n) \<Rightarrow> showNat n | Some NaN \<Rightarrow> ''NaN'' | None \<Rightarrow> ''undefined'')"

definition renderSummaryMarkdown :: "Scoreboard \<Rightarrow> string" where
  "renderSummaryMarkdown scoreboard =
     (let counts = getScoreCounts scoreboard;
          total = length (capabilities scoreboard);
          operationalRatio = showCount (counts ''operational'') @ ''/'' @ showNat total
      in join [newline]
           [''- Capabilities tracked: **'' @ showNat total @ ''**'',
            ''- Operational: **'' @ showCount (counts ''operational'') @ ''**'',
            ''- Scaffold: **'' @ showCount (counts ''scaffold'') @ ''**'',
            ''- Spec-only: **'' @ showCount (counts ''spec-only'') @ ''**'',
            ''- Implementation ratio (operational/total): **'' @ operationalRatio @ ''**''])"

section \<open>The tracking guard\<close>

definition trackingMessage :: "string list \<Rightarrow> string" where
  "trackingMessage addedSpecs =
     join [newline]
       ([''New planning/spec artifacts were added without updating implementation scoreboard.'',
         ''Added artifacts:'']
        @ map (\<lambda>artifact. ''  - '' @ artifact) addedSpecs
        @ [''Update '' @ SCOREBOARD_PATH
           @ '' in the same change to keep spec-vs-implementation tracking current.''])"

definition enforceSpecToImplementationTracking :: "DiffEntry list \<Rightarrow> error + unit" where
  "enforceSpecToImplementationTracking entries =
     (let addedSpecs = getAddedSpecArtifacts entries in
      if length addedSpecs = 0 then Inr ()
      else if \<not> hasScoreboardUpdate entries then Inl (Error (trackingMessage addedSpecs))
      else Inr ())"

section \<open>Helper lemmas\<close>

lemma startsWith_prefix: "startsWith s p = prefix p s"
  unfolding startsWith_def by (metis prefix_def append_eq_conv_conj append_take_drop_id)

lemma endsWith_suffix: "endsWith s p = suffix p s"
  unfolding endsWith_def
  by (metis suffix_def append_eq_conv_conj suffix_drop suffix_length_le length_append
      add_diff_cancel_right')

lemma hasScoreboardUpdate_iff:
  "hasScoreboardUpdate entries \<longleftrightarrow>
     (\<exists>e\<in>set entries. path e = SCOREBOARD_PATH \<and> status e \<noteq> ''D'')"
  by (simp add: hasScoreboardUpdate_def list_ex_iff)

lemma validateCapabilities_ok:
  "validateCapabilities cs ids = Inr () \<longleftrightarrow>
     (\<forall>c\<in>set cs. id_cap c \<noteq> [] \<and> description c \<noteq> [] \<and> state c \<in> set allowedStates)
     \<and> distinct (map id_cap cs) \<and> id_cap ` set cs \<inter> ids = {}"
  by (induction cs arbitrary: ids) (auto simp: Let_def)

lemma validateCapabilities_total:
  "validateCapabilities cs ids = Inr () \<or> (\<exists>m. validateCapabilities cs ids = Inl (Error m))"
  by (induction cs arbitrary: ids) (auto simp: Let_def)

lemma validateCapabilities_append:
  "validateCapabilities pre ids = Inr () \<Longrightarrow>
   validateCapabilities (pre @ rest) ids = validateCapabilities rest (id_cap ` set pre \<union> ids)"
  by (induction pre arbitrary: ids) (auto simp: Let_def split: if_splits)

section \<open>The spec-artifact classifier\<close>

text \<open>
  C2. The planning-area prefix of the code is \<^verbatim>\<open>.GITHUB-MODE/docs/planning/\<close>, so the
  path \<^verbatim>\<open>docs/planning/foo.md\<close> is not a spec artifact.
\<close>

theorem isSpecArtifact_unprefixed_counterexample:
  "\<not> isSpecArtifact ''docs/planning/foo.md''"
  by (simp add: isSpecArtifact_def startsWith_def endsWith_def SPEC_ARTIFACT_PREFIX_def)

text \<open>
  C2, as amended. A path is a spec artifact iff it starts with
  \<^verbatim>\<open>.GITHUB-MODE/docs/planning/\<close>, ends with \<^verbatim>\<open>.md\<close> and does not end with
  \<^verbatim>\<open>/README.md\<close>. So \<^verbatim>\<open>.GITHUB-MODE/docs/planning/foo.md\<close> is one, and the README of the
  area, a \<^verbatim>\<open>.txt\<close> file of the area, and the paths \<^verbatim>\<open>docs/planning/README.md\<close>,
  \<^verbatim>\<open>docs/planning/foo.txt\<close> and \<^verbatim>\<open>other/foo.md\<close> are not.
\<close>

theorem isSpecArtifact_characterisation:
  "(isSpecArtifact p \<longleftrightarrow>
      prefix ''.GITHUB-MODE/docs/planning/'' p \<and> suffix ''.md'' p \<and> \<not> suffix ''/README.md'' p)
   \<and> isSpecArtifact ''.GITHUB-MODE/docs/planning/foo.md''
   \<and> \<not> isSpecArtifact ''.GITHUB-MODE/docs/planning/README.md''
   \<and> \<not> isSpecArtifact ''.GITHUB-MODE/docs/planning/foo.txt''
   \<and> \<not> isSpecArtifact ''docs/planning/README.md''
   \<and> \<not> isSpecArtifact ''docs/planning/foo.txt''
   \<and> \<not> isSpecArtifact ''other/foo.md''"
proof -
  have "isSpecArtifact p \<longleftrightarrow>
      prefix ''.GITHUB-MODE/docs/planning/'' p \<and> suffix ''.md'' p \<and> \<not> suffix ''/README.md'' p"
    by (simp only: isSpecArtifact_def startsWith_prefix endsWith_suffix SPEC_ARTIFACT_PREFIX_def)
  moreover have "isSpecArtifact ''.GITHUB-MODE/docs/planning/foo.md''"
    by (simp add: isSpecArtifact_def startsWith_def endsWith_def SPEC_ARTIFACT_PREFIX_def)
  moreover have "\<not> isSpecArtifact ''.GITHUB-MODE/docs/planning/README.md''"
    by (simp add: isSpecArtifact_def startsWith_def endsWith_def SPEC_ARTIFACT_PREFIX_def)
  moreover have "\<not> isSpecArtifact ''.GITHUB-MODE/docs/planning/foo.txt''"
    by (simp add: isSpecArtifact_def startsWith_def endsWith_def SPEC_ARTIFACT_PREFIX_def)
  moreover have "\<not> isSpecArtifact ''docs/planning/README.md''"
    by (simp add: isSpecArtifact_def startsWith_def endsWith_def SPEC_ARTIFACT_PREFIX_def)
  moreover have "\<not> isSpecArtifact ''docs/planning/foo.txt''"
    by (simp add: isSpecArtifact_def startsWith_def endsWith_def SPEC_ARTIFACT_PREFIX_def)
  moreover have "\<not> isSpecArtifact ''other/foo.md''"
    by (simp add: isSpecArtifact_def startsWith_def endsWith_def SPEC_ARTIFACT_PREFIX_def)
  ultimately show ?thesis by blast
qed

theorem isSpecArtifact_characterisation_witness:
  "isSpecArtifact ''.GITHUB-MODE/docs/planning/adr/notes.md''
   \<and> prefix ''.GITHUB-MODE/docs/planning/'' ''.GITHUB-MODE/docs/planning/adr/notes.md''
   \<and> suffix ''.md'' ''.GITHUB-MODE/docs/planning/adr/notes.md''"
  using isSpecArtifact_characterisation [of "''.GITHUB-MODE/docs/planning/adr/notes.md''"]
  by (simp add: suffix_to_prefix)

section \<open>The scoreboard update detector\<close>

text \<open>
  C5. \<^verbatim>\<open>hasScoreboardUpdate(entries)\<close> is true iff some entry has the scoreboard path as its
  path and a status other than \<^verbatim>\<open>D\<close>; on the single entry that deletes the scoreboard it is
  false.
\<close>

theorem hasScoreboardUpdate_spec:
  "(hasScoreboardUpdate entries \<longleftrightarrow>
      (\<exists>e\<in>set entries. path e = SCOREBOARD_PATH \<and> status e \<noteq> ''D''))
   \<and> \<not> hasScoreboardUpdate [\<lparr>status = ''D'', path = SCOREBOARD_PATH\<rparr>]"
  by (simp add: hasScoreboardUpdate_def list_ex_iff)

theorem hasScoreboardUpdate_spec_witness:
  "hasScoreboardUpdate
     [\<lparr>status = ''D'', path = ''README.md''\<rparr>, \<lparr>status = ''M'', path = SCOREBOARD_PATH\<rparr>]
   \<and> \<not> hasScoreboardUpdate [\<lparr>status = ''D'', path = SCOREBOARD_PATH\<rparr>]"
  using hasScoreboardUpdate_spec
    [of "[\<lparr>status = ''D'', path = ''README.md''\<rparr>, \<lparr>status = ''M'', path = SCOREBOARD_PATH\<rparr>]"]
  by simp

section \<open>The scoreboard validator\<close>

text \<open>
  C4. \<^verbatim>\<open>validateScoreboard\<close> returns normally exactly for the scoreboards with at least
  one capability in which every capability has a non-empty id, a non-empty description and a
  state among the three allowed values, and no id occurs twice; for every other scoreboard
  (no capability, a duplicated id, a state outside the three values, an empty id or
  description) it throws.
\<close>

theorem validateScoreboard_accepts_iff:
  "(validateScoreboard sb = Inr () \<longleftrightarrow>
      capabilities sb \<noteq> []
      \<and> (\<forall>c\<in>set (capabilities sb).
            id_cap c \<noteq> [] \<and> description c \<noteq> []
            \<and> state c \<in> {''spec-only'', ''scaffold'', ''operational''})
      \<and> distinct (map id_cap (capabilities sb)))
   \<and> (validateScoreboard sb \<noteq> Inr () \<longleftrightarrow> (\<exists>m. validateScoreboard sb = Inl (Error m)))"
proof -
  have "validateScoreboard sb \<noteq> Inr () \<longleftrightarrow> (\<exists>m. validateScoreboard sb = Inl (Error m))"
    using validateCapabilities_total [of "capabilities sb" "{}"]
    by (auto simp: validateScoreboard_def)
  moreover have "validateScoreboard sb = Inr () \<longleftrightarrow>
      capabilities sb \<noteq> []
      \<and> (\<forall>c\<in>set (capabilities sb).
            id_cap c \<noteq> [] \<and> description c \<noteq> []
            \<and> state c \<in> {''spec-only'', ''scaffold'', ''operational''})
      \<and> distinct (map id_cap (capabilities sb))"
    by (simp add: validateScoreboard_def validateCapabilities_ok allowedStates_def)
  ultimately show ?thesis by blast
qed

theorem validateScoreboard_accepts_iff_witness:
  "validateScoreboard
     \<lparr>version = 1, capabilities =
        [\<lparr>id_cap = ''parser'', description = ''Parses the diff'', state = ''spec-only'',
          evidence = None\<rparr>,
         \<lparr>id_cap = ''guard'', description = ''Guards the scoreboard'', state = ''scaffold'',
          evidence = Some [''scripts/check.ts'']\<rparr>,
         \<lparr>id_cap = ''summary'', description = ''Prints the summary'', state = ''operational'',
          evidence = None\<rparr>]\<rparr> = Inr ()
   \<and> (\<exists>m. validateScoreboard \<lparr>version = 1, capabilities = []\<rparr> = Inl (Error m))"
proof -
  have a: "validateScoreboard
     \<lparr>version = 1, capabilities =
        [\<lparr>id_cap = ''parser'', description = ''Parses the diff'', state = ''spec-only'',
          evidence = None\<rparr>,
         \<lparr>id_cap = ''guard'', description = ''Guards the scoreboard'', state = ''scaffold'',
          evidence = Some [''scripts/check.ts'']\<rparr>,
         \<lparr>id_cap = ''summary'', description = ''Prints the summary'', state = ''operational'',
          evidence = None\<rparr>]\<rparr> = Inr ()"
    using validateScoreboard_accepts_iff [of "\<lparr>version = 1, capabilities =
        [\<lparr>id_cap = ''parser'', description = ''Parses the diff'', state = ''spec-only'',
          evidence = None\<rparr>,
         \<lparr>id_cap = ''guard'', description = ''Guards the scoreboard'', state = ''scaffold'',
          evidence = Some [''scripts/check.ts'']\<rparr>,
         \<lparr>id_cap = ''summary'', description = ''Prints the summary'', state = ''operational'',
          evidence = None\<rparr>]\<rparr>"]
    by simp
  have b: "\<exists>m. validateScoreboard \<lparr>version = 1, capabilities = []\<rparr> = Inl (Error m)"
    using validateScoreboard_accepts_iff [of "\<lparr>version = 1, capabilities = []\<rparr>"]
    by auto
  from a b show ?thesis by (rule conjI)
qed

text \<open>
  C3. The rules are not applied one after the other to the whole sequence: the capability in
  front has an invalid state, a later one has an empty id, and the error is the one of the
  invalid state.
\<close>

theorem validateScoreboard_order_counterexample:
  "validateScoreboard
     \<lparr>version = 1, capabilities =
        [\<lparr>id_cap = ''a'', description = ''first'', state = ''bogus'', evidence = None\<rparr>,
         \<lparr>id_cap = '''', description = ''second'', state = ''scaffold'', evidence = None\<rparr>]\<rparr>
     = Inl (Error (invalidStateMessage ''a'' ''bogus''))
   \<and> invalidStateMessage ''a'' ''bogus'' \<noteq> missingFieldMessage"
  by (simp add: validateScoreboard_def allowedStates_def invalidStateMessage_def
      missingFieldMessage_def)

text \<open>
  C3, as amended. Rule 1 (some capability) is checked first. Then the capabilities are
  examined in sequence order, and rules 2 (non-empty id and description), 3 (id not among
  the ids of the capabilities before it) and 4 (allowed state) are applied in this order to
  one capability before the next one is looked at. So with \<open>c\<close> the first capability that
  breaks a rule, the capabilities \<open>pre\<close> before it passing all of them, the error is the
  one of the first rule that \<open>c\<close> breaks, whatever the capabilities \<open>post\<close> after it
  hold. In particular an empty id or description gives the rule-2 error when every
  capability before it is well formed.
\<close>

theorem validateScoreboard_first_violation:
  "(capabilities sb = [] \<longrightarrow> validateScoreboard sb = Inl (Error noCapabilitiesMessage))
   \<and> (capabilities sb = pre @ c # post
        \<and> (\<forall>d\<in>set pre. id_cap d \<noteq> [] \<and> description d \<noteq> []
              \<and> state d \<in> {''spec-only'', ''scaffold'', ''operational''})
        \<and> distinct (map id_cap pre) \<longrightarrow>
      (id_cap c = [] \<or> description c = [] \<longrightarrow>
         validateScoreboard sb = Inl (Error missingFieldMessage))
      \<and> (id_cap c \<noteq> [] \<and> description c \<noteq> [] \<and> id_cap c \<in> id_cap ` set pre \<longrightarrow>
         validateScoreboard sb = Inl (Error (duplicateIdMessage (id_cap c))))
      \<and> (id_cap c \<noteq> [] \<and> description c \<noteq> [] \<and> id_cap c \<notin> id_cap ` set pre
           \<and> state c \<notin> {''spec-only'', ''scaffold'', ''operational''} \<longrightarrow>
         validateScoreboard sb = Inl (Error (invalidStateMessage (id_cap c) (state c)))))"
proof -
  have r1: "capabilities sb = [] \<longrightarrow> validateScoreboard sb = Inl (Error noCapabilitiesMessage)"
    by (simp add: validateScoreboard_def)
  have rest: "validateScoreboard sb =
     (if id_cap c = [] \<or> description c = [] then Inl (Error missingFieldMessage)
      else if id_cap c \<in> id_cap ` set pre then Inl (Error (duplicateIdMessage (id_cap c)))
      else if state c \<notin> set allowedStates
        then Inl (Error (invalidStateMessage (id_cap c) (state c)))
      else validateCapabilities post (insert (id_cap c) (id_cap ` set pre)))"
    if caps: "capabilities sb = pre @ c # post"
      and ok: "\<forall>d\<in>set pre. id_cap d \<noteq> [] \<and> description d \<noteq> []
              \<and> state d \<in> {''spec-only'', ''scaffold'', ''operational''}"
      and dist: "distinct (map id_cap pre)"
  proof -
    have "validateCapabilities pre {} = Inr ()"
      using ok dist by (simp add: validateCapabilities_ok allowedStates_def)
    then have "validateCapabilities (pre @ c # post) {} =
        validateCapabilities (c # post) (id_cap ` set pre)"
      using validateCapabilities_append [of pre "{}" "c # post"] by simp
    then show ?thesis
      using caps by (simp add: validateScoreboard_def Let_def)
  qed
  have allowed: "set allowedStates = {''spec-only'', ''scaffold'', ''operational''}"
    by (simp add: allowedStates_def)
  show ?thesis
    using r1 rest unfolding allowed by presburger
qed

theorem validateScoreboard_first_violation_witness:
  "validateScoreboard
     \<lparr>version = 1, capabilities =
        [\<lparr>id_cap = ''a'', description = ''first'', state = ''scaffold'', evidence = None\<rparr>,
         \<lparr>id_cap = '''', description = ''second'', state = ''scaffold'', evidence = None\<rparr>,
         \<lparr>id_cap = ''c'', description = ''third'', state = ''bogus'', evidence = None\<rparr>]\<rparr>
     = Inl (Error missingFieldMessage)"
  using validateScoreboard_first_violation
    [of "\<lparr>version = 1, capabilities =
        [\<lparr>id_cap = ''a'', description = ''first'', state = ''scaffold'', evidence = None\<rparr>,
         \<lparr>id_cap = '''', description = ''second'', state = ''scaffold'', evidence = None\<rparr>,
         \<lparr>id_cap = ''c'', description = ''third'', state = ''bogus'', evidence = None\<rparr>]\<rparr>"
        "[\<lparr>id_cap = ''a'', description = ''first'', state = ''scaffold'', evidence = None\<rparr>]"
        "\<lparr>id_cap = '''', description = ''second'', state = ''scaffold'', evidence = None\<rparr>"
        "[\<lparr>id_cap = ''c'', description = ''third'', state = ''bogus'', evidence = None\<rparr>]"]
  by simp

section \<open>Added spec artifacts\<close>

lemma set_collectAdditions:
  "set (collectAdditions entries additions) =
     set additions \<union> {path e |e. e \<in> set entries \<and> status e = ''A'' \<and> isSpecArtifact (path e)}"
  by (induction entries arbitrary: additions) (auto simp: set_add_def)

lemma distinct_collectAdditions:
  "distinct additions \<Longrightarrow> distinct (collectAdditions entries additions)"
  by (induction entries arbitrary: additions) (auto simp: set_add_def)

lemma set_getAddedSpecArtifacts:
  "set (getAddedSpecArtifacts entries) =
     {path e |e. e \<in> set entries \<and> status e = ''A'' \<and> isSpecArtifact (path e)}"
  by (simp add: getAddedSpecArtifacts_def set_collectAdditions)

lemma distinct_getAddedSpecArtifacts: "distinct (getAddedSpecArtifacts entries)"
  by (simp add: getAddedSpecArtifacts_def distinct_collectAdditions)

lemma sorted_getAddedSpecArtifacts: "sorted (getAddedSpecArtifacts entries)"
  by (simp add: getAddedSpecArtifacts_def)

lemma string_less_lexord:
  "(a :: string) < b \<longleftrightarrow> (a, b) \<in> lexord {(c, d). (of_char c :: nat) < of_char d}"
  by (simp add: list_less_def less_char_def)

lemma getAddedSpecArtifacts_cong:
  assumes "set entries' = set entries"
  shows "getAddedSpecArtifacts entries' = getAddedSpecArtifacts entries"
proof (rule sorted_distinct_set_unique)
  show "set (getAddedSpecArtifacts entries') = set (getAddedSpecArtifacts entries)"
    by (simp add: set_getAddedSpecArtifacts assms)
qed (simp_all add: sorted_getAddedSpecArtifacts distinct_getAddedSpecArtifacts)

text \<open>
  C6. The result of \<^verbatim>\<open>getAddedSpecArtifacts\<close> holds exactly the paths of the entries with
  status \<^verbatim>\<open>A\<close> whose path is a spec artifact, each of them once, in ascending
  lexicographic order of their code units; and a permutation of the entries gives the same
  result.
\<close>

theorem getAddedSpecArtifacts_spec:
  "set (getAddedSpecArtifacts entries) =
     {path e |e. e \<in> set entries \<and> status e = ''A'' \<and> isSpecArtifact (path e)}
   \<and> distinct (getAddedSpecArtifacts entries)
   \<and> sorted_wrt (\<lambda>a b. (a, b) \<in> lexord {(c, d). (of_char c :: nat) < of_char d})
        (getAddedSpecArtifacts entries)
   \<and> (mset entries' = mset entries \<longrightarrow>
        getAddedSpecArtifacts entries' = getAddedSpecArtifacts entries)"
proof -
  have "sorted_wrt (<) (getAddedSpecArtifacts entries)"
    using sorted_getAddedSpecArtifacts distinct_getAddedSpecArtifacts
    by (simp add: strict_sorted_iff)
  then have "sorted_wrt (\<lambda>a b. (a, b) \<in> lexord {(c, d). (of_char c :: nat) < of_char d})
        (getAddedSpecArtifacts entries)"
    by (simp add: string_less_lexord [abs_def])
  moreover have "mset entries' = mset entries \<longrightarrow>
        getAddedSpecArtifacts entries' = getAddedSpecArtifacts entries"
    using getAddedSpecArtifacts_cong mset_eq_setD by blast
  ultimately show ?thesis
    using set_getAddedSpecArtifacts distinct_getAddedSpecArtifacts by blast
qed

theorem getAddedSpecArtifacts_spec_witness:
  "getAddedSpecArtifacts
     [\<lparr>status = ''A'', path = ''.GITHUB-MODE/docs/planning/a.md''\<rparr>,
      \<lparr>status = ''M'', path = ''.GITHUB-MODE/docs/planning/m.md''\<rparr>,
      \<lparr>status = ''A'', path = ''.GITHUB-MODE/docs/planning/b.md''\<rparr>,
      \<lparr>status = ''A'', path = ''.GITHUB-MODE/docs/planning/b.md''\<rparr>]
   = getAddedSpecArtifacts
     [\<lparr>status = ''A'', path = ''.GITHUB-MODE/docs/planning/b.md''\<rparr>,
      \<lparr>status = ''A'', path = ''.GITHUB-MODE/docs/planning/a.md''\<rparr>,
      \<lparr>status = ''A'', path = ''.GITHUB-MODE/docs/planning/b.md''\<rparr>,
      \<lparr>status = ''M'', path = ''.GITHUB-MODE/docs/planning/m.md''\<rparr>]
   \<and> getAddedSpecArtifacts
     [\<lparr>status = ''A'', path = ''.GITHUB-MODE/docs/planning/b.md''\<rparr>,
      \<lparr>status = ''A'', path = ''.GITHUB-MODE/docs/planning/a.md''\<rparr>,
      \<lparr>status = ''A'', path = ''.GITHUB-MODE/docs/planning/b.md''\<rparr>,
      \<lparr>status = ''M'', path = ''.GITHUB-MODE/docs/planning/m.md''\<rparr>]
   = [''.GITHUB-MODE/docs/planning/a.md'', ''.GITHUB-MODE/docs/planning/b.md'']"
proof -
  have "getAddedSpecArtifacts
     [\<lparr>status = ''A'', path = ''.GITHUB-MODE/docs/planning/b.md''\<rparr>,
      \<lparr>status = ''A'', path = ''.GITHUB-MODE/docs/planning/a.md''\<rparr>,
      \<lparr>status = ''A'', path = ''.GITHUB-MODE/docs/planning/b.md''\<rparr>,
      \<lparr>status = ''M'', path = ''.GITHUB-MODE/docs/planning/m.md''\<rparr>]
   = [''.GITHUB-MODE/docs/planning/a.md'', ''.GITHUB-MODE/docs/planning/b.md'']"
    by code_simp
  moreover have "getAddedSpecArtifacts
     [\<lparr>status = ''A'', path = ''.GITHUB-MODE/docs/planning/a.md''\<rparr>,
      \<lparr>status = ''M'', path = ''.GITHUB-MODE/docs/planning/m.md''\<rparr>,
      \<lparr>status = ''A'', path = ''.GITHUB-MODE/docs/planning/b.md''\<rparr>,
      \<lparr>status = ''A'', path = ''.GITHUB-MODE/docs/planning/b.md''\<rparr>]
   = getAddedSpecArtifacts
     [\<lparr>status = ''A'', path = ''.GITHUB-MODE/docs/planning/b.md''\<rparr>,
      \<lparr>status = ''A'', path = ''.GITHUB-MODE/docs/planning/a.md''\<rparr>,
      \<lparr>status = ''A'', path = ''.GITHUB-MODE/docs/planning/b.md''\<rparr>,
      \<lparr>status = ''M'', path = ''.GITHUB-MODE/docs/planning/m.md''\<rparr>]"
    using getAddedSpecArtifacts_spec
      [of "[\<lparr>status = ''A'', path = ''.GITHUB-MODE/docs/planning/b.md''\<rparr>,
      \<lparr>status = ''A'', path = ''.GITHUB-MODE/docs/planning/a.md''\<rparr>,
      \<lparr>status = ''A'', path = ''.GITHUB-MODE/docs/planning/b.md''\<rparr>,
      \<lparr>status = ''M'', path = ''.GITHUB-MODE/docs/planning/m.md''\<rparr>]"
      "[\<lparr>status = ''A'', path = ''.GITHUB-MODE/docs/planning/a.md''\<rparr>,
      \<lparr>status = ''M'', path = ''.GITHUB-MODE/docs/planning/m.md''\<rparr>,
      \<lparr>status = ''A'', path = ''.GITHUB-MODE/docs/planning/b.md''\<rparr>,
      \<lparr>status = ''A'', path = ''.GITHUB-MODE/docs/planning/b.md''\<rparr>]"]
    by simp
  ultimately show ?thesis by simp
qed

section \<open>The tracking guard enforced\<close>

lemma sublist_join: "x \<in> set xs \<Longrightarrow> sublist x (join sep xs)"
proof (induction sep xs rule: join.induct)
  case (3 sep a b ys)
  show ?case
  proof (cases "x = a")
    case True
    then show ?thesis by simp
  next
    case False
    with 3 have "sublist x (join sep (b # ys))" by simp
    then have "sublist x ((a @ sep) @ join sep (b # ys))"
      by (meson sublist_append)
    then show ?thesis by simp
  qed
qed simp_all

lemma sublist_trackingMessage_artifact:
  assumes "p \<in> set addedSpecs"
  shows "sublist (''  - '' @ p) (trackingMessage addedSpecs)"
  unfolding trackingMessage_def
  by (rule sublist_join) (use assms in auto)

lemma sublist_trackingMessage_scoreboard:
  "sublist SCOREBOARD_PATH (trackingMessage addedSpecs)"
proof -
  let ?l = "''Update '' @ SCOREBOARD_PATH
           @ '' in the same change to keep spec-vs-implementation tracking current.''"
  have "sublist ?l (trackingMessage addedSpecs)"
    unfolding trackingMessage_def by (rule sublist_join) simp
  moreover have "sublist SCOREBOARD_PATH ?l"
    by (rule sublist_appendI)
  ultimately show ?thesis
    by (meson sublist_order.order_trans)
qed

text \<open>
  C1. \<^verbatim>\<open>enforceSpecToImplementationTracking\<close> returns normally when no spec artifact was
  added; it throws exactly when some spec artifact was added and
  \<^verbatim>\<open>hasScoreboardUpdate\<close> is false, and the message of the error then lists every added
  spec artifact, one per line after the dash, and names the scoreboard path in its last line.
\<close>

theorem enforceSpecToImplementationTracking_spec:
  "(getAddedSpecArtifacts entries = [] \<longrightarrow>
      enforceSpecToImplementationTracking entries = Inr ())
   \<and> (enforceSpecToImplementationTracking entries \<noteq> Inr () \<longleftrightarrow>
        getAddedSpecArtifacts entries \<noteq> [] \<and> \<not> hasScoreboardUpdate entries)
   \<and> (enforceSpecToImplementationTracking entries \<noteq> Inr () \<longrightarrow>
        (\<exists>msg. enforceSpecToImplementationTracking entries = Inl (Error msg)
           \<and> msg = join [newline]
               ([''New planning/spec artifacts were added without updating implementation scoreboard.'',
                 ''Added artifacts:'']
                @ map (\<lambda>artifact. ''  - '' @ artifact) (getAddedSpecArtifacts entries)
                @ [''Update '' @ SCOREBOARD_PATH
                   @ '' in the same change to keep spec-vs-implementation tracking current.''])
           \<and> (\<forall>p\<in>set (getAddedSpecArtifacts entries). sublist (''  - '' @ p) msg)
           \<and> sublist SCOREBOARD_PATH msg))"
proof -
  have a: "getAddedSpecArtifacts entries = [] \<longrightarrow>
      enforceSpecToImplementationTracking entries = Inr ()"
    by (simp add: enforceSpecToImplementationTracking_def)
  have b: "enforceSpecToImplementationTracking entries \<noteq> Inr () \<longleftrightarrow>
        getAddedSpecArtifacts entries \<noteq> [] \<and> \<not> hasScoreboardUpdate entries"
    by (simp add: enforceSpecToImplementationTracking_def Let_def)
  have c: "\<exists>msg. enforceSpecToImplementationTracking entries = Inl (Error msg)
           \<and> msg = join [newline]
               ([''New planning/spec artifacts were added without updating implementation scoreboard.'',
                 ''Added artifacts:'']
                @ map (\<lambda>artifact. ''  - '' @ artifact) (getAddedSpecArtifacts entries)
                @ [''Update '' @ SCOREBOARD_PATH
                   @ '' in the same change to keep spec-vs-implementation tracking current.''])
           \<and> (\<forall>p\<in>set (getAddedSpecArtifacts entries). sublist (''  - '' @ p) msg)
           \<and> sublist SCOREBOARD_PATH msg"
    if "enforceSpecToImplementationTracking entries \<noteq> Inr ()"
  proof (intro exI conjI)
    from that b show "enforceSpecToImplementationTracking entries =
        Inl (Error (trackingMessage (getAddedSpecArtifacts entries)))"
      by (simp add: enforceSpecToImplementationTracking_def Let_def)
    show "trackingMessage (getAddedSpecArtifacts entries) = join [newline]
               ([''New planning/spec artifacts were added without updating implementation scoreboard.'',
                 ''Added artifacts:'']
                @ map (\<lambda>artifact. ''  - '' @ artifact) (getAddedSpecArtifacts entries)
                @ [''Update '' @ SCOREBOARD_PATH
                   @ '' in the same change to keep spec-vs-implementation tracking current.''])"
      by (simp only: trackingMessage_def)
    show "\<forall>p\<in>set (getAddedSpecArtifacts entries).
        sublist (''  - '' @ p) (trackingMessage (getAddedSpecArtifacts entries))"
      using sublist_trackingMessage_artifact by blast
    show "sublist SCOREBOARD_PATH (trackingMessage (getAddedSpecArtifacts entries))"
      by (rule sublist_trackingMessage_scoreboard)
  qed
  from a b c show ?thesis by blast
qed

theorem enforceSpecToImplementationTracking_spec_witness:
  "\<exists>msg. enforceSpecToImplementationTracking
       [\<lparr>status = ''A'', path = ''.GITHUB-MODE/docs/planning/x.md''\<rparr>] = Inl (Error msg)
     \<and> sublist ''  - .GITHUB-MODE/docs/planning/x.md'' msg
     \<and> sublist ''.GITHUB-MODE/runtime/implementation-scoreboard.json'' msg"
proof -
  define entries where
    "entries = [\<lparr>status = ''A'', path = ''.GITHUB-MODE/docs/planning/x.md''\<rparr>]"
  have added: "getAddedSpecArtifacts entries = [''.GITHUB-MODE/docs/planning/x.md'']"
    unfolding entries_def by code_simp
  have upd: "\<not> hasScoreboardUpdate entries"
    by (simp add: entries_def hasScoreboardUpdate_def SCOREBOARD_PATH_def)
  note inst = enforceSpecToImplementationTracking_spec [of entries]
  from inst have iff: "enforceSpecToImplementationTracking entries \<noteq> Inr () \<longleftrightarrow>
        getAddedSpecArtifacts entries \<noteq> [] \<and> \<not> hasScoreboardUpdate entries"
    by (elim conjE)
  with added upd have thrown: "enforceSpecToImplementationTracking entries \<noteq> Inr ()"
    by simp
  from inst have "enforceSpecToImplementationTracking entries \<noteq> Inr () \<longrightarrow>
        (\<exists>msg. enforceSpecToImplementationTracking entries = Inl (Error msg)
           \<and> msg = join [newline]
               ([''New planning/spec artifacts were added without updating implementation scoreboard.'',
                 ''Added artifacts:'']
                @ map (\<lambda>artifact. ''  - '' @ artifact) (getAddedSpecArtifacts entries)
                @ [''Update '' @ SCOREBOARD_PATH
                   @ '' in the same change to keep spec-vs-implementation tracking current.''])
           \<and> (\<forall>p\<in>set (getAddedSpecArtifacts entries). sublist (''  - '' @ p) msg)
           \<and> sublist SCOREBOARD_PATH msg)"
    by (elim conjE)
  from this thrown have "\<exists>msg. enforceSpecToImplementationTracking entries = Inl (Error msg)
           \<and> msg = join [newline]
               ([''New planning/spec artifacts were added without updating implementation scoreboard.'',
                 ''Added artifacts:'']
                @ map (\<lambda>artifact. ''  - '' @ artifact) (getAddedSpecArtifacts entries)
                @ [''Update '' @ SCOREBOARD_PATH
                   @ '' in the same change to keep spec-vs-implementation tracking current.''])
           \<and> (\<forall>p\<in>set (getAddedSpecArtifacts entries). sublist (''  - '' @ p) msg)
           \<and> sublist SCOREBOARD_PATH msg"
    by (rule mp)
  then obtain msg where m: "enforceSpecToImplementationTracking entries = Inl (Error msg)"
    and l: "\<forall>p\<in>set (getAddedSpecArtifacts entries). sublist (''  - '' @ p) msg"
    and s: "sublist SCOREBOARD_PATH msg"
    by (elim exE conjE)
  from l have "sublist (''  - '' @ ''.GITHUB-MODE/docs/planning/x.md'') msg"
    unfolding added by simp
  then have l': "sublist ''  - .GITHUB-MODE/docs/planning/x.md'' msg"
    by simp
  from s have s': "sublist ''.GITHUB-MODE/runtime/implementation-scoreboard.json'' msg"
    unfolding SCOREBOARD_PATH_def .
  from m l' s' show ?thesis
    unfolding entries_def by (intro exI conjI)
qed

text \<open>
  C9. An entry with the scoreboard path and a status that begins with \<^verbatim>\<open>R\<close> makes
  \<^verbatim>\<open>hasScoreboardUpdate\<close> true, so the guard does not throw, also when spec artifacts were
  added. The old-path side of a rename line is such an entry: in the instance that follows
  the theorem, the listing renames the scoreboard away and adds a spec artifact, and the
  guard returns normally.
\<close>

theorem rename_of_scoreboard_satisfies_guard:
  assumes "\<exists>e\<in>set entries. path e = SCOREBOARD_PATH \<and> startsWith (status e) ''R''"
  shows "hasScoreboardUpdate entries \<and> enforceSpecToImplementationTracking entries = Inr ()"
proof -
  from assms obtain e where e: "e \<in> set entries" "path e = SCOREBOARD_PATH"
    "startsWith (status e) ''R''" by blast
  from e(3) have "status e \<noteq> ''D''"
    by (auto simp: startsWith_def)
  with e(1,2) have "hasScoreboardUpdate entries"
    by (auto simp: hasScoreboardUpdate_iff)
  then show ?thesis
    by (simp add: enforceSpecToImplementationTracking_def Let_def)
qed

theorem rename_of_scoreboard_satisfies_guard_witness:
  "parseDiffEntries
     (''R100'' @ [tab] @ SCOREBOARD_PATH @ [tab] @ ''archive/scoreboard.json'' @ [newline]
        @ ''A'' @ [tab] @ ''.GITHUB-MODE/docs/planning/x.md'')
     = [\<lparr>status = ''R100'', path = SCOREBOARD_PATH\<rparr>,
        \<lparr>status = ''R100'', path = ''archive/scoreboard.json''\<rparr>,
        \<lparr>status = ''A'', path = ''.GITHUB-MODE/docs/planning/x.md''\<rparr>]
   \<and> getAddedSpecArtifacts
       [\<lparr>status = ''R100'', path = SCOREBOARD_PATH\<rparr>,
        \<lparr>status = ''R100'', path = ''archive/scoreboard.json''\<rparr>,
        \<lparr>status = ''A'', path = ''.GITHUB-MODE/docs/planning/x.md''\<rparr>]
     = [''.GITHUB-MODE/docs/planning/x.md'']
   \<and> hasScoreboardUpdate
       [\<lparr>status = ''R100'', path = SCOREBOARD_PATH\<rparr>,
        \<lparr>status = ''R100'', path = ''archive/scoreboard.json''\<rparr>,
        \<lparr>status = ''A'', path = ''.GITHUB-MODE/docs/planning/x.md''\<rparr>]
   \<and> enforceSpecToImplementationTracking
       [\<lparr>status = ''R100'', path = SCOREBOARD_PATH\<rparr>,
        \<lparr>status = ''R100'', path = ''archive/scoreboard.json''\<rparr>,
        \<lparr>status = ''A'', path = ''.GITHUB-MODE/docs/planning/x.md''\<rparr>] = Inr ()"
proof -
  have p: "parseDiffEntries
     (''R100'' @ [tab] @ SCOREBOARD_PATH @ [tab] @ ''archive/scoreboard.json'' @ [newline]
        @ ''A'' @ [tab] @ ''.GITHUB-MODE/docs/planning/x.md'')
     = [\<lparr>status = ''R100'', path = SCOREBOARD_PATH\<rparr>,
        \<lparr>status = ''R100'', path = ''archive/scoreboard.json''\<rparr>,
        \<lparr>status = ''A'', path = ''.GITHUB-MODE/docs/planning/x.md''\<rparr>]"
    by code_simp
  have g: "getAddedSpecArtifacts
       [\<lparr>status = ''R100'', path = SCOREBOARD_PATH\<rparr>,
        \<lparr>status = ''R100'', path = ''archive/scoreboard.json''\<rparr>,
        \<lparr>status = ''A'', path = ''.GITHUB-MODE/docs/planning/x.md''\<rparr>]
     = [''.GITHUB-MODE/docs/planning/x.md'']"
    by code_simp
  have h: "hasScoreboardUpdate
       [\<lparr>status = ''R100'', path = SCOREBOARD_PATH\<rparr>,
        \<lparr>status = ''R100'', path = ''archive/scoreboard.json''\<rparr>,
        \<lparr>status = ''A'', path = ''.GITHUB-MODE/docs/planning/x.md''\<rparr>]
   \<and> enforceSpecToImplementationTracking
       [\<lparr>status = ''R100'', path = SCOREBOARD_PATH\<rparr>,
        \<lparr>status = ''R100'', path = ''archive/scoreboard.json''\<rparr>,
        \<lparr>status = ''A'', path = ''.GITHUB-MODE/docs/planning/x.md''\<rparr>] = Inr ()"
    by (rule rename_of_scoreboard_satisfies_guard) (simp add: startsWith_def)
  from p g h show ?thesis by blast
qed

section \<open>The parser\<close>

lemma split_js_not_Nil: "split_js sep s \<noteq> []"
  by (induction s) (auto split: list.splits)

lemma length_split_js: "length (split_js sep s) = Suc (count_list s sep)"
  by (induction s) (auto split: list.splits simp: split_js_not_Nil)

lemma split_js_one_field: "length (split_js sep s) < 2 \<longleftrightarrow> sep \<notin> set s"
  by (simp add: length_split_js count_list_0_iff)

lemma parseLine_append: "parseLine line entries = entries @ parseLine line []"
  by (simp add: parseLine_def Let_def)

lemma parseLines_concat:
  "parseLines ls entries = entries @ concat (map (\<lambda>line. parseLine line []) ls)"
proof (induction ls arbitrary: entries)
  case Nil
  show ?case by simp
next
  case (Cons l ls)
  have "parseLines (l # ls) entries = parseLine l entries @ concat (map (\<lambda>line. parseLine line []) ls)"
    using Cons.IH [of "parseLine l entries"] by simp
  also have "\<dots> = entries @ parseLine l [] @ concat (map (\<lambda>line. parseLine line []) ls)"
    using parseLine_append [of l entries] by simp
  finally show ?case by simp
qed

lemma parseLine_skip: "length (split_js tab line) < 2 \<Longrightarrow> parseLine line entries = entries"
  by (simp add: parseLine_def)

lemma concat_map_filter_skip:
  "(\<And>x. x \<in> set xs \<Longrightarrow> \<not> P x \<Longrightarrow> f x = []) \<Longrightarrow>
   concat (map f (filter P xs)) = concat (map f xs)"
  by (induction xs) auto

text \<open>
  C7. The rename line \<^verbatim>\<open>R100<tab>old/a.md<tab>new/a.md\<close> gives the two entries of status
  \<^verbatim>\<open>R100\<close> with the paths \<^verbatim>\<open>old/a.md\<close> and \<^verbatim>\<open>new/a.md\<close>, in this order. In general the
  entries of a listing are those of its lines, in order, and a line of two or more fields
  whose trimmed status begins with \<^verbatim>\<open>R\<close> or \<^verbatim>\<open>C\<close> pushes one entry for its second
  field (the old path) and one for its third field (the new path) when that field is there
  and not empty, both with the trimmed status of the line and the trimmed field as path.
  Fields after the third are not read.
\<close>

theorem parseDiffEntries_rename_copy:
  "parseDiffEntries (''R100'' @ [tab] @ ''old/a.md'' @ [tab] @ ''new/a.md'')
     = [\<lparr>status = ''R100'', path = ''old/a.md''\<rparr>, \<lparr>status = ''R100'', path = ''new/a.md''\<rparr>]
   \<and> parseDiffEntries diffOutput = concat (map (\<lambda>line. parseLine line []) (split_js newline diffOutput))
   \<and> (2 \<le> length (split_js tab line)
        \<and> (startsWith (trim (split_js tab line ! 0)) ''R''
             \<or> startsWith (trim (split_js tab line ! 0)) ''C'') \<longrightarrow>
      parseLine line entries =
        entries
        @ \<lparr>status = trim (split_js tab line ! 0), path = trim (split_js tab line ! 1)\<rparr>
        # (if 2 < length (split_js tab line) \<and> split_js tab line ! 2 \<noteq> []
           then [\<lparr>status = trim (split_js tab line ! 0), path = trim (split_js tab line ! 2)\<rparr>]
           else []))"
proof -
  have a: "parseDiffEntries (''R100'' @ [tab] @ ''old/a.md'' @ [tab] @ ''new/a.md'')
     = [\<lparr>status = ''R100'', path = ''old/a.md''\<rparr>, \<lparr>status = ''R100'', path = ''new/a.md''\<rparr>]"
    by code_simp
  have b: "parseDiffEntries diffOutput =
      concat (map (\<lambda>line. parseLine line []) (split_js newline diffOutput))"
    by (simp add: parseDiffEntries_def parseLines_concat)
  have c: "2 \<le> length (split_js tab line)
        \<and> (startsWith (trim (split_js tab line ! 0)) ''R''
             \<or> startsWith (trim (split_js tab line ! 0)) ''C'') \<longrightarrow>
      parseLine line entries =
        entries
        @ \<lparr>status = trim (split_js tab line ! 0), path = trim (split_js tab line ! 1)\<rparr>
        # (if 2 < length (split_js tab line) \<and> split_js tab line ! 2 \<noteq> []
           then [\<lparr>status = trim (split_js tab line ! 0), path = trim (split_js tab line ! 2)\<rparr>]
           else [])"
    by (simp add: parseLine_def Let_def)
  from a b c show ?thesis by (intro conjI)
qed

theorem parseDiffEntries_rename_copy_witness:
  "parseLine (''C75'' @ [tab] @ ''src/a.ts'' @ [tab] @ ''src/b.ts'')
     [\<lparr>status = ''M'', path = ''README.md''\<rparr>]
   = [\<lparr>status = ''M'', path = ''README.md''\<rparr>, \<lparr>status = ''C75'', path = ''src/a.ts''\<rparr>,
      \<lparr>status = ''C75'', path = ''src/b.ts''\<rparr>]"
proof -
  define line where "line = ''C75'' @ [tab] @ ''src/a.ts'' @ [tab] @ ''src/b.ts''"
  have s: "split_js tab line = [''C75'', ''src/a.ts'', ''src/b.ts'']"
    unfolding line_def by code_simp
  have t: "trim ''C75'' = ''C75''" "trim ''src/a.ts'' = ''src/a.ts''"
    "trim ''src/b.ts'' = ''src/b.ts''"
    by code_simp+
  have "parseLine line [\<lparr>status = ''M'', path = ''README.md''\<rparr>]
   = [\<lparr>status = ''M'', path = ''README.md''\<rparr>, \<lparr>status = ''C75'', path = ''src/a.ts''\<rparr>,
      \<lparr>status = ''C75'', path = ''src/b.ts''\<rparr>]"
    using parseDiffEntries_rename_copy
      [where line = line and entries = "[\<lparr>status = ''M'', path = ''README.md''\<rparr>]"]
    by (simp add: s t startsWith_def)
  then show ?thesis
    unfolding line_def .
qed

text \<open>
  C8. The entries of a listing are the entries of its lines of two or more tab-separated
  fields: a line with fewer than two fields, that is a line without a tab, and so the empty
  line, pushes nothing. A line that holds a tab has two fields and is parsed, also when it
  holds nothing but white space. The parser has no error path, it returns a list for every
  input.
\<close>

theorem parseDiffEntries_skips_short_lines:
  "parseDiffEntries diffOutput =
     concat (map (\<lambda>line. parseLine line [])
       (filter (\<lambda>line. 2 \<le> length (split_js tab line)) (split_js newline diffOutput)))
   \<and> (length (split_js tab line) < 2 \<longrightarrow> parseLine line entries = entries)
   \<and> parseLine [] entries = entries
   \<and> (length (split_js tab line) < 2 \<longleftrightarrow> tab \<notin> set line)"
proof -
  have "concat (map (\<lambda>line. parseLine line [])
       (filter (\<lambda>line. 2 \<le> length (split_js tab line)) (split_js newline diffOutput)))
     = concat (map (\<lambda>line. parseLine line []) (split_js newline diffOutput))"
    by (rule concat_map_filter_skip) (simp add: parseLine_skip)
  then have a: "parseDiffEntries diffOutput =
     concat (map (\<lambda>line. parseLine line [])
       (filter (\<lambda>line. 2 \<le> length (split_js tab line)) (split_js newline diffOutput)))"
    by (simp add: parseDiffEntries_def parseLines_concat)
  have b: "length (split_js tab line) < 2 \<longrightarrow> parseLine line entries = entries"
    by (simp add: parseLine_skip)
  have c: "parseLine [] entries = entries"
    by (simp add: parseLine_def)
  have d: "length (split_js tab line) < 2 \<longleftrightarrow> tab \<notin> set line"
    by (rule split_js_one_field)
  from a b c d show ?thesis by (intro conjI)
qed

theorem parseDiffEntries_skips_short_lines_witness:
  "parseDiffEntries
     ([newline] @ ''A'' @ [tab] @ ''foo/bar.md'' @ [newline] @ [newline]
        @ ''not a diff line'' @ [newline])
     = [\<lparr>status = ''A'', path = ''foo/bar.md''\<rparr>]
   \<and> parseLine ''not a diff line'' [\<lparr>status = ''A'', path = ''foo/bar.md''\<rparr>]
     = [\<lparr>status = ''A'', path = ''foo/bar.md''\<rparr>]"
proof -
  define inp where "inp = [newline] @ ''A'' @ [tab] @ ''foo/bar.md'' @ [newline] @ [newline]
        @ ''not a diff line'' @ [newline]"
  have l: "length (split_js tab ''not a diff line'') < 2"
    by code_simp
  have f: "concat (map (\<lambda>line. parseLine line [])
       (filter (\<lambda>line. 2 \<le> length (split_js tab line)) (split_js newline inp)))
     = [\<lparr>status = ''A'', path = ''foo/bar.md''\<rparr>]"
    unfolding inp_def by code_simp
  note inst = parseDiffEntries_skips_short_lines
      [where diffOutput = inp and line = "''not a diff line''"
        and entries = "[\<lparr>status = ''A'', path = ''foo/bar.md''\<rparr>]"]
  from inst f have "parseDiffEntries inp = [\<lparr>status = ''A'', path = ''foo/bar.md''\<rparr>]"
    by (simp only:)
  moreover from inst l have "parseLine ''not a diff line'' [\<lparr>status = ''A'', path = ''foo/bar.md''\<rparr>]
     = [\<lparr>status = ''A'', path = ''foo/bar.md''\<rparr>]"
    by blast
  ultimately show ?thesis
    unfolding inp_def by (rule conjI)
qed

section \<open>The summary\<close>

lemma dom_countStates: "dom (countStates cs m) = dom m \<union> state ` set cs"
  by (induction cs arbitrary: m) auto

lemma countStates_Num:
  "\<forall>c\<in>set cs. \<exists>n. m (state c) = Some (Num n) \<Longrightarrow> m k = Some (Num j) \<Longrightarrow>
   countStates cs m k = Some (Num (j + length (filter (\<lambda>c. state c = k) cs)))"
proof (induction cs arbitrary: m j)
  case Nil
  then show ?case by simp
next
  case (Cons c cs)
  from Cons.prems(1) obtain n where n: "m (state c) = Some (Num n)" by auto
  define m' where "m' = m(state c \<mapsto> increment (m (state c)))"
  have pre: "\<forall>d\<in>set cs. \<exists>i. m' (state d) = Some (Num i)"
    using Cons.prems(1) n by (auto simp: increment_def m'_def)
  have step: "countStates (c # cs) m k = countStates cs m' k"
    by (simp add: m'_def)
  show ?case
  proof (cases "state c = k")
    case True
    with n Cons.prems(2) have "m' k = Some (Num (j + 1))"
      by (simp add: increment_def m'_def)
    then have "countStates cs m' k =
        Some (Num ((j + 1) + length (filter (\<lambda>c. state c = k) cs)))"
      using pre by (rule Cons.IH [rotated])
    with step True show ?thesis by simp
  next
    case False
    with Cons.prems(2) have "m' k = Some (Num j)" by (simp add: m'_def)
    then have "countStates cs m' k =
        Some (Num (j + length (filter (\<lambda>c. state c = k) cs)))"
      using pre by (rule Cons.IH [rotated])
    with step False show ?thesis by simp
  qed
qed

lemma three_way_count:
  "\<forall>c\<in>set cs. f c = a \<or> f c = b \<or> f c = d \<Longrightarrow> a \<noteq> b \<Longrightarrow> a \<noteq> d \<Longrightarrow> b \<noteq> d \<Longrightarrow>
   length (filter (\<lambda>c. f c = a) cs) + length (filter (\<lambda>c. f c = b) cs)
     + length (filter (\<lambda>c. f c = d) cs) = length cs"
  by (induction cs) auto

lemma getScoreCounts_valid:
  assumes "\<forall>c\<in>set (capabilities sb). state c \<in> {''spec-only'', ''scaffold'', ''operational''}"
    and "k \<in> {''spec-only'', ''scaffold'', ''operational''}"
  shows "getScoreCounts sb k = Some (Num (length (filter (\<lambda>c. state c = k) (capabilities sb))))"
proof -
  define m :: "string \<rightharpoonup> jsnum"
    where "m = [''spec-only'' \<mapsto> Num 0, ''scaffold'' \<mapsto> Num 0, ''operational'' \<mapsto> Num 0]"
  have pre: "\<forall>c\<in>set (capabilities sb). \<exists>n. m (state c) = Some (Num n)"
    using assms(1) by (auto simp: m_def)
  have k: "m k = Some (Num 0)"
    using assms(2) by (auto simp: m_def)
  have "countStates (capabilities sb) m k =
      Some (Num (0 + length (filter (\<lambda>c. state c = k) (capabilities sb))))"
    using pre k by (rule countStates_Num)
  then show ?thesis
    by (simp add: getScoreCounts_def m_def)
qed

text \<open>
  C10. When the state of every capability is one of the three allowed values, the object
  returned by \<^verbatim>\<open>getScoreCounts\<close> has the three keys and holds under each the number of
  capabilities in that state, the three counts add up to the number of capabilities, and
  \<^verbatim>\<open>renderSummaryMarkdown\<close> prints that number both as the total of tracked capabilities
  and as the denominator of the ratio.
\<close>

theorem score_counts_total:
  assumes "\<forall>c\<in>set (capabilities sb). state c \<in> {''spec-only'', ''scaffold'', ''operational''}"
    and "so = length (filter (\<lambda>c. state c = ''spec-only'') (capabilities sb))"
    and "sc = length (filter (\<lambda>c. state c = ''scaffold'') (capabilities sb))"
    and "op = length (filter (\<lambda>c. state c = ''operational'') (capabilities sb))"
  shows "getScoreCounts sb ''spec-only'' = Some (Num so)
     \<and> getScoreCounts sb ''scaffold'' = Some (Num sc)
     \<and> getScoreCounts sb ''operational'' = Some (Num op)
     \<and> dom (getScoreCounts sb) = {''spec-only'', ''scaffold'', ''operational''}
     \<and> so + sc + op = length (capabilities sb)
     \<and> renderSummaryMarkdown sb =
         join [newline]
           [''- Capabilities tracked: **'' @ showNat (length (capabilities sb)) @ ''**'',
            ''- Operational: **'' @ showNat op @ ''**'',
            ''- Scaffold: **'' @ showNat sc @ ''**'',
            ''- Spec-only: **'' @ showNat so @ ''**'',
            ''- Implementation ratio (operational/total): **'' @ showNat op @ ''/''
              @ showNat (length (capabilities sb)) @ ''**'']"
proof -
  let ?cs = "capabilities sb"
  note valid = assms(1)
  have a: "getScoreCounts sb ''spec-only'' = Some (Num so)"
    unfolding assms(2) by (rule getScoreCounts_valid [OF valid]) simp
  have b: "getScoreCounts sb ''scaffold'' = Some (Num sc)"
    unfolding assms(3) by (rule getScoreCounts_valid [OF valid]) simp
  have c: "getScoreCounts sb ''operational'' = Some (Num op)"
    unfolding assms(4) by (rule getScoreCounts_valid [OF valid]) simp
  have "state ` set ?cs \<subseteq> {''spec-only'', ''scaffold'', ''operational''}"
    using valid by blast
  then have d: "dom (getScoreCounts sb) = {''spec-only'', ''scaffold'', ''operational''}"
    unfolding getScoreCounts_def dom_countStates by auto
  have "\<forall>c\<in>set ?cs. state c = ''spec-only'' \<or> state c = ''scaffold'' \<or> state c = ''operational''"
    using valid by blast
  then have e: "so + sc + op = length ?cs"
    unfolding assms(2,3,4)
    by (rule three_way_count) simp_all
  have f: "renderSummaryMarkdown sb =
         join [newline]
           [''- Capabilities tracked: **'' @ showNat (length (capabilities sb)) @ ''**'',
            ''- Operational: **'' @ showNat op @ ''**'',
            ''- Scaffold: **'' @ showNat sc @ ''**'',
            ''- Spec-only: **'' @ showNat so @ ''**'',
            ''- Implementation ratio (operational/total): **'' @ showNat op @ ''/''
              @ showNat (length (capabilities sb)) @ ''**'']"
    unfolding renderSummaryMarkdown_def Let_def a b c showCount_def
    by (simp only: option.case jsnum.case append_assoc)
  from a b c d e f show ?thesis by (intro conjI)
qed

theorem score_counts_total_witness:
  "renderSummaryMarkdown
     \<lparr>version = 1, capabilities =
        [\<lparr>id_cap = ''parser'', description = ''Parses the diff'', state = ''operational'',
          evidence = None\<rparr>,
         \<lparr>id_cap = ''guard'', description = ''Guards the scoreboard'', state = ''scaffold'',
          evidence = None\<rparr>,
         \<lparr>id_cap = ''summary'', description = ''Prints the summary'', state = ''operational'',
          evidence = None\<rparr>]\<rparr>
   = ''- Capabilities tracked: **3**'' @ [newline]
     @ ''- Operational: **2**'' @ [newline]
     @ ''- Scaffold: **1**'' @ [newline]
     @ ''- Spec-only: **0**'' @ [newline]
     @ ''- Implementation ratio (operational/total): **2/3**''"
proof -
  define sb where "sb = \<lparr>version = 1, capabilities =
        [\<lparr>id_cap = ''parser'', description = ''Parses the diff'', state = ''operational'',
          evidence = None\<rparr>,
         \<lparr>id_cap = ''guard'', description = ''Guards the scoreboard'', state = ''scaffold'',
          evidence = None\<rparr>,
         \<lparr>id_cap = ''summary'', description = ''Prints the summary'', state = ''operational'',
          evidence = None\<rparr>]\<rparr>"
  have hyp: "\<forall>c\<in>set (capabilities sb). state c \<in> {''spec-only'', ''scaffold'', ''operational''}"
    by (simp add: sb_def)
  have so: "(0::nat) = length (filter (\<lambda>c. state c = ''spec-only'') (capabilities sb))"
    by (simp add: sb_def)
  have sc: "(1::nat) = length (filter (\<lambda>c. state c = ''scaffold'') (capabilities sb))"
    by (simp add: sb_def)
  have op: "(2::nat) = length (filter (\<lambda>c. state c = ''operational'') (capabilities sb))"
    by (simp add: sb_def)
  have len: "length (capabilities sb) = 3" by (simp add: sb_def)
  have n: "showNat 0 = ''0''" "showNat 1 = ''1''" "showNat 2 = ''2''" "showNat 3 = ''3''"
    by (simp_all add: showNat.simps digits_def)
  note inst = score_counts_total [OF hyp so sc op]
  then have "renderSummaryMarkdown sb =
         join [newline]
           [''- Capabilities tracked: **'' @ showNat 3 @ ''**'',
            ''- Operational: **'' @ showNat 2 @ ''**'',
            ''- Scaffold: **'' @ showNat 1 @ ''**'',
            ''- Spec-only: **'' @ showNat 0 @ ''**'',
            ''- Implementation ratio (operational/total): **'' @ showNat 2 @ ''/''
              @ showNat 3 @ ''**'']"
    unfolding len by (elim conjE)
  then have "renderSummaryMarkdown sb
   = ''- Capabilities tracked: **3**'' @ [newline]
     @ ''- Operational: **2**'' @ [newline]
     @ ''- Scaffold: **1**'' @ [newline]
     @ ''- Spec-only: **0**'' @ [newline]
     @ ''- Implementation ratio (operational/total): **2/3**''"
    unfolding n by simp
  then show ?thesis unfolding sb_def .
qed

end
